theory Spec2Isabelle
  imports Main "HOL-Library.Word" "HOL-Library.Sublist"
begin

section \<open>create\_template\_js.py: embedding a workbook as a base64 script\<close>

text \<open>
  The repository is one Python procedure, \<^verbatim>\<open>create_template_js\<close>. It creates the
  directory \<^verbatim>\<open>lib\<close>, checks that the workbook exists, reads it, encodes it with
  \<^verbatim>\<open>base64.b64encode\<close>, and writes one JavaScript statement to
  \<^verbatim>\<open>lib/template-data.js\<close>. The model below has three layers: the two library
  transforms on data (base64 and UTF-8 decoding), the file-system calls as functions on
  an explicit world, and the procedure itself, line by line.
\<close>

subsection \<open>Bytes and text\<close>

text \<open>
  A Python \<^verbatim>\<open>bytes\<close> value is a list of 8-bit words. A Python \<^verbatim>\<open>str\<close> is a
  \<^typ>\<open>string\<close>, read as the UTF-8 bytes of the text, so an ASCII character is one
  \<^typ>\<open>char\<close>.
\<close>

type_synonym byte = "8 word"

subsection \<open>\<^verbatim>\<open>base64.b64encode\<close>\<close>

text \<open>
  The standard encoder (RFC 4648, section 4: the alphabet of 64 characters, \<^verbatim>\<open>=\<close>
  padding, no line breaks). Each block of three bytes gives four 6-bit groups; a last
  block of one or two bytes is filled with zero bits and padded to four characters.
  Shifts and masks are written as division and remainder on the unsigned value. The
  table \<open>b64_char\<close> is only ever read at an index below 64 (\<open>sextet_bounds\<close>
  below).
\<close>

definition b64_alphabet :: string where
  "b64_alphabet = ''ABCDEFGHIJKLMNOPQRSTUVWXYZabcdefghijklmnopqrstuvwxyz0123456789+/''"

definition b64_pad :: char where
  "b64_pad = CHR ''=''"

definition b64_char :: "nat \<Rightarrow> byte" where
  "b64_char n = of_char (b64_alphabet ! n)"

fun b64encode :: "byte list \<Rightarrow> byte list" where
  "b64encode [] = []"
| "b64encode [a] =
     [b64_char (unat a div 4), b64_char (unat a mod 4 * 16), of_char b64_pad, of_char b64_pad]"
| "b64encode [a, b] =
     [b64_char (unat a div 4), b64_char (unat a mod 4 * 16 + unat b div 16),
      b64_char (unat b mod 16 * 4), of_char b64_pad]"
| "b64encode (a # b # c # bs) =
     [b64_char (unat a div 4), b64_char (unat a mod 4 * 16 + unat b div 16),
      b64_char (unat b mod 16 * 4 + unat c div 64), b64_char (unat c mod 64)] @ b64encode bs"

subsection \<open>\<^verbatim>\<open>bytes.decode('utf-8')\<close>\<close>

text \<open>
  Strict UTF-8 decoding: the byte sequence is accepted when it is well-formed UTF-8
  (no overlong forms, no surrogates, nothing above U+10FFFF), and the text is then the
  same bytes read as characters; otherwise \<^verbatim>\<open>UnicodeDecodeError\<close> is raised.
\<close>

type_synonym path = string

datatype py_exception =
    FileExistsError path
  | FileNotFoundError path
  | IsADirectoryError path
  | PermissionError path
  | OSError path
  | MemoryError
  | UnicodeDecodeError

definition cont :: "byte \<Rightarrow> bool" where
  "cont c \<longleftrightarrow> 0x80 \<le> c \<and> c \<le> 0xBF"

definition second3 :: "byte \<Rightarrow> byte \<Rightarrow> bool" where
  "second3 b c \<longleftrightarrow>
     (if b = 0xE0 then 0xA0 \<le> c \<and> c \<le> 0xBF
      else if b = 0xED then 0x80 \<le> c \<and> c \<le> 0x9F
      else cont c)"

definition second4 :: "byte \<Rightarrow> byte \<Rightarrow> bool" where
  "second4 b c \<longleftrightarrow>
     (if b = 0xF0 then 0x90 \<le> c \<and> c \<le> 0xBF
      else if b = 0xF4 then 0x80 \<le> c \<and> c \<le> 0x8F
      else cont c)"

fun valid_utf8 :: "byte list \<Rightarrow> bool" where
  "valid_utf8 [] = True"
| "valid_utf8 (b # bs) =
    (if b < 0x80 then valid_utf8 bs
     else if 0xC2 \<le> b \<and> b \<le> 0xDF then
       (case bs of c1 # r \<Rightarrow> cont c1 \<and> valid_utf8 r | _ \<Rightarrow> False)
     else if 0xE0 \<le> b \<and> b \<le> 0xEF then
       (case bs of c1 # c2 # r \<Rightarrow> second3 b c1 \<and> cont c2 \<and> valid_utf8 r | _ \<Rightarrow> False)
     else if 0xF0 \<le> b \<and> b \<le> 0xF4 then
       (case bs of c1 # c2 # c3 # r \<Rightarrow>
          second4 b c1 \<and> cont c2 \<and> cont c3 \<and> valid_utf8 r | _ \<Rightarrow> False)
     else False)"

definition bytes_text :: "byte list \<Rightarrow> string" where
  "bytes_text bs = map (\<lambda>b. char_of (unat b)) bs"

definition decode_utf8 :: "byte list \<Rightarrow> py_exception + string" where
  "decode_utf8 bs = (if valid_utf8 bs then Inr (bytes_text bs) else Inl UnicodeDecodeError)"

subsection \<open>The file system, the console and the faults of a run\<close>

text \<open>
  The world of a run: the file-system entries by path (a directory, or a regular file
  with its bytes), the lines printed so far, and the file-system calls made so far, in
  order. The last field is a history only; no call reads it.
\<close>

datatype node = Dir | File "byte list"

datatype fs_call =
    MakeDirs path
  | PathExists path
  | OpenRead path
  | ReadAll path
  | OpenWrite path
  | WriteAll path

record world =
  nodes :: "path \<rightharpoonup> node"
  console :: "string list"
  calls :: "fs_call list"

text \<open>
  What the operating system may refuse in one run is a parameter of the run: for each
  call that can fail for reasons outside the file-system contents (permissions, a full
  disk, an I/O error) the exception it raises, if any. \<open>write_fault\<close> also says how
  many bytes reached the file before the failure. \<open>exc_str\<close> is Python's
  \<^verbatim>\<open>str(e)\<close>, whose text depends on the platform.
\<close>

record env =
  mkdir_fault :: "py_exception option"
  open_rb_fault :: "py_exception option"
  read_fault :: "py_exception option"
  open_w_fault :: "py_exception option"
  write_fault :: "(nat \<times> py_exception) option"
  exc_str :: "py_exception \<Rightarrow> string"

definition log_call :: "fs_call \<Rightarrow> world \<Rightarrow> world" where
  "log_call c w = w\<lparr>calls := calls w @ [c]\<rparr>"

text \<open>
  \<^verbatim>\<open>os.makedirs(p, exist_ok=True)\<close> for a path of one component: it calls
  \<^verbatim>\<open>mkdir\<close>, and when that fails it re-raises unless \<open>p\<close> is a directory.
\<close>

definition makedirs :: "env \<Rightarrow> path \<Rightarrow> world \<Rightarrow> (py_exception + unit) \<times> world" where
  "makedirs ev p w =
     (let w' = log_call (MakeDirs p) w in
      case nodes w p of
        Some Dir \<Rightarrow> (Inr (), w')
      | Some (File bs) \<Rightarrow> (Inl (FileExistsError p), w')
      | None \<Rightarrow>
          (case mkdir_fault ev of
             Some e \<Rightarrow> (Inl e, w')
           | None \<Rightarrow> (Inr (), w'\<lparr>nodes := (nodes w)(p \<mapsto> Dir)\<rparr>)))"

text \<open>\<^verbatim>\<open>os.path.exists(p)\<close>: true for a file or a directory; it never raises.\<close>

definition path_exists :: "path \<Rightarrow> world \<Rightarrow> bool \<times> world" where
  "path_exists p w = (nodes w p \<noteq> None, log_call (PathExists p) w)"

text \<open>
  \<^verbatim>\<open>open(p, 'rb')\<close> gives the file object, here the bytes it will read;
  \<^verbatim>\<open>f.read()\<close> returns them all.
\<close>

definition open_rb :: "env \<Rightarrow> path \<Rightarrow> world \<Rightarrow> (py_exception + byte list) \<times> world" where
  "open_rb ev p w =
     (let w' = log_call (OpenRead p) w in
      case nodes w p of
        None \<Rightarrow> (Inl (FileNotFoundError p), w')
      | Some Dir \<Rightarrow> (Inl (IsADirectoryError p), w')
      | Some (File bs) \<Rightarrow>
          (case open_rb_fault ev of
             Some e \<Rightarrow> (Inl e, w')
           | None \<Rightarrow> (Inr bs, w')))"

definition read_all :: "env \<Rightarrow> path \<Rightarrow> byte list \<Rightarrow> world \<Rightarrow> (py_exception + byte list) \<times> world" where
  "read_all ev p f w =
     (let w' = log_call (ReadAll p) w in
      case read_fault ev of
        Some e \<Rightarrow> (Inl e, w')
      | None \<Rightarrow> (Inr f, w'))"

text \<open>
  \<^verbatim>\<open>open(p, 'w')\<close> creates the file or truncates it to length zero.
  \<^verbatim>\<open>f.write(text)\<close> followed by the close at the end of the \<^verbatim>\<open>with\<close> block
  puts the encoded text into the file; when the write or the flush fails, the bytes
  already written stay. The text written by this program is ASCII without a newline,
  so its bytes are the character codes. The directory of the path exists whenever the
  procedure opens the file, \<^verbatim>\<open>os.makedirs\<close> having returned.
\<close>

definition open_w :: "env \<Rightarrow> path \<Rightarrow> world \<Rightarrow> (py_exception + unit) \<times> world" where
  "open_w ev p w =
     (let w' = log_call (OpenWrite p) w in
      case nodes w p of
        Some Dir \<Rightarrow> (Inl (IsADirectoryError p), w')
      | _ \<Rightarrow>
          (case open_w_fault ev of
             Some e \<Rightarrow> (Inl e, w')
           | None \<Rightarrow> (Inr (), w'\<lparr>nodes := (nodes w)(p \<mapsto> File [])\<rparr>)))"

definition encode_text :: "string \<Rightarrow> byte list" where
  "encode_text s = map of_char s"

definition write_all :: "env \<Rightarrow> path \<Rightarrow> string \<Rightarrow> world \<Rightarrow> (py_exception + unit) \<times> world" where
  "write_all ev p s w =
     (let w' = log_call (WriteAll p) w in
      case write_fault ev of
        Some (k, e) \<Rightarrow> (Inl e, w'\<lparr>nodes := (nodes w)(p \<mapsto> File (take k (encode_text s)))\<rparr>)
      | None \<Rightarrow> (Inr (), w'\<lparr>nodes := (nodes w)(p \<mapsto> File (encode_text s))\<rparr>))"

text \<open>
  \<^verbatim>\<open>print(s)\<close> adds a line to the console. Writing to the console is taken to
  succeed.
\<close>

definition print :: "string \<Rightarrow> world \<Rightarrow> world" where
  "print s w = w\<lparr>console := console w @ [s]\<rparr>"

subsection \<open>The procedure\<close>

definition lib_dir :: path where
  "lib_dir = ''lib''"

definition source_file :: path where
  "source_file = ''MB Change Request Form.xlsx''"

definition output_file :: path where
  "output_file = ''lib/template-data.js''"

definition quote :: char where
  "quote = CHR 0x27"

definition not_found_msg :: string where
  "not_found_msg = ''Error: '' @ [quote] @ source_file @ [quote]
     @ '' not found. Please place your Excel file in this folder.''"

definition success_msg :: string where
  "success_msg = ''Success! Created '' @ output_file"

definition link_msg :: string where
  "link_msg = ''Link this file in your index.html before app.js''"

definition error_msg :: "env \<Rightarrow> py_exception \<Rightarrow> string" where
  "error_msg ev e = ''Error: '' @ exc_str ev e"

definition js_content :: "string \<Rightarrow> string" where
  "js_content encoded = ''window.TEMPLATE_DATA = '' @ [quote] @ encoded @ [quote] @ '';''"

text \<open>
  The body of the \<^verbatim>\<open>try\<close> statement (lines 16 to 27): read, encode, compose, write,
  report. The first exception ends it.
\<close>

definition try_body :: "env \<Rightarrow> world \<Rightarrow> (py_exception + unit) \<times> world" where
  "try_body ev w =
     (case open_rb ev source_file w of
        (Inl e, w1) \<Rightarrow> (Inl e, w1)
      | (Inr f, w1) \<Rightarrow>
     (case read_all ev source_file f w1 of
        (Inl e, w2) \<Rightarrow> (Inl e, w2)
      | (Inr data, w2) \<Rightarrow>
     (case decode_utf8 (b64encode data) of
        Inl e \<Rightarrow> (Inl e, w2)
      | Inr encoded \<Rightarrow>
     (case open_w ev output_file w2 of
        (Inl e, w3) \<Rightarrow> (Inl e, w3)
      | (Inr u, w3) \<Rightarrow>
     (case write_all ev output_file (js_content encoded) w3 of
        (Inl e, w4) \<Rightarrow> (Inl e, w4)
      | (Inr u, w4) \<Rightarrow> (Inr (), print link_msg (print success_msg w4)))))))"

text \<open>
  The whole procedure. \<^verbatim>\<open>os.makedirs\<close> (line 6) stands before the \<^verbatim>\<open>try\<close>, so
  its exception leaves the procedure; an exception of the body is handled by
  \<^verbatim>\<open>except Exception\<close> (lines 29 and 30), which prints it.
\<close>

datatype outcome = Returned | Raised py_exception

definition create_template_js :: "env \<Rightarrow> world \<Rightarrow> outcome \<times> world" where
  "create_template_js ev w =
     (case makedirs ev lib_dir w of
        (Inl e, w1) \<Rightarrow> (Raised e, w1)
      | (Inr u, w1) \<Rightarrow>
     (case path_exists source_file w1 of
        (found, w2) \<Rightarrow>
          if \<not> found then (Returned, print not_found_msg w2)
          else
     (case try_body ev w2 of
        (Inl e, w3) \<Rightarrow> (Returned, print (error_msg ev e) w3)
      | (Inr u, w3) \<Rightarrow> (Returned, w3))))"

subsection \<open>Reading the artifact back\<close>

text \<open>
  The consumer's side, used to state the round trip: the text between the first two
  single quotes of a line, and the standard base64 decoder (four characters give three
  bytes; padding is allowed in the last block only).
\<close>

definition between_quotes :: "string \<Rightarrow> string" where
  "between_quotes s = takeWhile (\<lambda>c. c \<noteq> quote) (tl (dropWhile (\<lambda>c. c \<noteq> quote) s))"

definition b64_index :: "char \<Rightarrow> nat option" where
  "b64_index c = map_of (zip b64_alphabet [0..<64]) c"

definition byte1 :: "nat \<Rightarrow> nat \<Rightarrow> byte" where
  "byte1 s0 s1 = of_nat (s0 * 4 + s1 div 16)"

definition byte2 :: "nat \<Rightarrow> nat \<Rightarrow> byte" where
  "byte2 s1 s2 = of_nat (s1 mod 16 * 16 + s2 div 4)"

definition byte3 :: "nat \<Rightarrow> nat \<Rightarrow> byte" where
  "byte3 s2 s3 = of_nat (s2 mod 4 * 64 + s3)"

definition decode_quad :: "char \<Rightarrow> char \<Rightarrow> char \<Rightarrow> char \<Rightarrow> byte list option" where
  "decode_quad c0 c1 c2 c3 =
     (case (b64_index c0, b64_index c1, b64_index c2, b64_index c3) of
        (Some s0, Some s1, Some s2, Some s3) \<Rightarrow>
          Some [byte1 s0 s1, byte2 s1 s2, byte3 s2 s3]
      | _ \<Rightarrow> None)"

definition decode_last :: "char \<Rightarrow> char \<Rightarrow> char \<Rightarrow> char \<Rightarrow> byte list option" where
  "decode_last c0 c1 c2 c3 =
     (if c2 = b64_pad \<and> c3 = b64_pad then
        (case (b64_index c0, b64_index c1) of
           (Some s0, Some s1) \<Rightarrow> Some [byte1 s0 s1]
         | _ \<Rightarrow> None)
      else if c3 = b64_pad then
        (case (b64_index c0, b64_index c1, b64_index c2) of
           (Some s0, Some s1, Some s2) \<Rightarrow> Some [byte1 s0 s1, byte2 s1 s2]
         | _ \<Rightarrow> None)
      else decode_quad c0 c1 c2 c3)"

fun b64decode :: "string \<Rightarrow> byte list option" where
  "b64decode [] = Some []"
| "b64decode (c0 # c1 # c2 # c3 # cs) =
     (if cs = [] then decode_last c0 c1 c2 c3
      else (case decode_quad c0 c1 c2 c3 of
              None \<Rightarrow> None
            | Some bs \<Rightarrow> map_option (\<lambda>r. bs @ r) (b64decode cs)))"
| "b64decode _ = None"

text \<open>The payload and the artifact that a source of bytes \<open>B\<close> leads to.\<close>

definition payload :: "byte list \<Rightarrow> string" where
  "payload B = bytes_text (b64encode B)"

definition artifact :: "byte list \<Rightarrow> byte list" where
  "artifact B = encode_text (js_content (payload B))"

text \<open>
  A run is successful when it printed the two lines that the program prints after the
  write (lines 26 and 27).
\<close>

definition succeeded :: "env \<Rightarrow> world \<Rightarrow> bool" where
  "succeeded ev w \<longleftrightarrow>
     fst (create_template_js ev w) = Returned \<and>
     console (snd (create_template_js ev w)) = console w @ [success_msg, link_msg]"

text \<open>An environment in which the operating system refuses nothing.\<close>

definition no_faults :: "env \<Rightarrow> bool" where
  "no_faults ev \<longleftrightarrow>
     mkdir_fault ev = None \<and> open_rb_fault ev = None \<and> read_fault ev = None \<and>
     open_w_fault ev = None \<and> write_fault ev = None"

text \<open>The characters of the payload: alphabet characters and the padding sign.\<close>

definition b64_text_char :: "char \<Rightarrow> bool" where
  "b64_text_char c \<longleftrightarrow> c \<in> set b64_alphabet \<or> c = b64_pad"

text \<open>
  What the contents of the file system must allow for a run to go through: \<^verbatim>\<open>lib\<close> is
  not a regular file, and the output path is not a directory.
\<close>

definition fs_ready :: "world \<Rightarrow> bool" where
  "fs_ready w \<longleftrightarrow>
     (case nodes w lib_dir of Some (File bs) \<Rightarrow> False | _ \<Rightarrow> True) \<and>
     nodes w output_file \<noteq> Some Dir"

text \<open>The directory \<^verbatim>\<open>lib\<close> exists already, or is absent and can be created.\<close>

definition lib_available :: "env \<Rightarrow> world \<Rightarrow> bool" where
  "lib_available ev w \<longleftrightarrow>
     (case nodes w lib_dir of
        Some Dir \<Rightarrow> True
      | Some (File bs) \<Rightarrow> False
      | None \<Rightarrow> mkdir_fault ev = None)"




subsection \<open>Concrete runs\<close>

text \<open>
  Environments and worlds on which the theorems below are evaluated: an environment
  without faults and one whose disk is full, so that no byte of a write arrives; an empty
  directory, one holding only the workbook (the three bytes \<^verbatim>\<open>Man\<close>), one with an
  earlier artifact, and one where \<^verbatim>\<open>lib\<close> is a regular file.
\<close>

definition quiet_env :: env where
  "quiet_env = \<lparr>mkdir_fault = None, open_rb_fault = None, read_fault = None,
     open_w_fault = None, write_fault = None, exc_str = (\<lambda>e. ''I/O error'')\<rparr>"

definition disk_full_env :: env where
  "disk_full_env = quiet_env\<lparr>write_fault := Some (0, OSError output_file)\<rparr>"

definition empty_world :: world where
  "empty_world = \<lparr>nodes = Map.empty, console = [], calls = []\<rparr>"

definition fresh_world :: world where
  "fresh_world =
     \<lparr>nodes = [source_file \<mapsto> File [0x4D, 0x61, 0x6E]], console = [], calls = []\<rparr>"

definition stocked_world :: world where
  "stocked_world = \<lparr>nodes = [source_file \<mapsto> File [0x4D], lib_dir \<mapsto> Dir,
     output_file \<mapsto> File [1, 2, 3, 4, 5]], console = [], calls = []\<rparr>"

definition blocked_world :: world where
  "blocked_world = \<lparr>nodes = [source_file \<mapsto> File [0x4D], lib_dir \<mapsto> File []],
     console = [], calls = []\<rparr>"

subsection \<open>Facts about the encoder\<close>

lemma length_b64_alphabet: "length b64_alphabet = 64"
  by (simp add: b64_alphabet_def)

lemma distinct_b64_alphabet: "distinct b64_alphabet"
  by (simp add: b64_alphabet_def)

lemma b64_index_nth: "n < 64 \<Longrightarrow> b64_index (b64_alphabet ! n) = Some n"
  unfolding b64_index_def
  using map_of_zip_nth [of b64_alphabet "[0..<64]" n]
  by (simp add: length_b64_alphabet distinct_b64_alphabet)

lemma alphabet_nth_mem: "n < 64 \<Longrightarrow> b64_alphabet ! n \<in> set b64_alphabet"
  by (simp add: length_b64_alphabet)

lemma pad_not_in_alphabet: "b64_pad \<notin> set b64_alphabet"
  by (simp add: b64_alphabet_def b64_pad_def)

lemma unat_of_char: "unat (of_char c :: byte) = of_char c"
proof -
  have "(of_char c :: byte) = of_nat (of_char c)"
    by (simp add: of_nat_of_char)
  then have "unat (of_char c :: byte) = (of_char c :: nat) mod 256"
    by (simp add: unat_of_nat)
  then show ?thesis by simp
qed

lemma bytes_text_encode_text: "bytes_text (encode_text s) = s"
  by (simp add: bytes_text_def encode_text_def unat_of_char comp_def)

lemma unat_byte_less: "unat (a::byte) < 256"
  using unsigned_less [of a, where 'a = nat] by simp

lemma sextet_bounds:
  "unat (a::byte) div 4 < 64" "unat (a::byte) mod 4 * 16 < 64"
  "unat (a::byte) mod 4 * 16 + unat (b::byte) div 16 < 64"
  "unat (b::byte) mod 16 * 4 < 64"
  "unat (b::byte) mod 16 * 4 + unat (c::byte) div 64 < 64"
  "unat (c::byte) mod 64 < 64"
  using unat_byte_less [of a] unat_byte_less [of b] unat_byte_less [of c]
  by simp_all

lemma text_b64_char: "n < 64 \<Longrightarrow> char_of (unat (b64_char n)) = b64_alphabet ! n"
  by (simp add: b64_char_def unat_of_char)

lemma text_pad: "char_of (unat (of_char b64_pad :: byte)) = b64_pad"
  by (simp add: unat_of_char)

lemma b64_char_text: "n < 64 \<Longrightarrow> \<exists>c. b64_text_char c \<and> b64_char n = of_char c"
  using alphabet_nth_mem [of n] by (auto simp add: b64_text_char_def b64_char_def)

lemma b64_pad_text: "\<exists>c. b64_text_char c \<and> (of_char b64_pad :: byte) = of_char c"
  by (auto simp add: b64_text_char_def)

lemma b64encode_bytes: "b \<in> set (b64encode B) \<Longrightarrow> \<exists>c. b64_text_char c \<and> b = of_char c"
proof (induction B arbitrary: b rule: b64encode.induct)
  case 1
  then show ?case by simp
next
  case (2 a)
  then show ?case
    using b64_char_text [OF sextet_bounds(1), of a] b64_char_text [OF sextet_bounds(2), of a]
      b64_pad_text
    by auto
next
  case (3 a b')
  then show ?case
    using b64_char_text [OF sextet_bounds(1), of a]
      b64_char_text [OF sextet_bounds(3), of a b']
      b64_char_text [OF sextet_bounds(4), of b'] b64_pad_text
    by auto
next
  case (4 a b' c' bs)
  then show ?case
    using b64_char_text [OF sextet_bounds(1), of a]
      b64_char_text [OF sextet_bounds(3), of a b']
      b64_char_text [OF sextet_bounds(5), of b' c']
      b64_char_text [OF sextet_bounds(6), of c']
    by auto
qed

lemma payload_chars: "c \<in> set (payload B) \<Longrightarrow> b64_text_char c"
proof -
  assume "c \<in> set (payload B)"
  then obtain b where b: "b \<in> set (b64encode B)" and c: "c = char_of (unat b)"
    by (auto simp add: payload_def bytes_text_def)
  from b64encode_bytes [OF b] obtain c' where "b64_text_char c'" and "b = of_char c'"
    by blast
  then show ?thesis using c by (simp add: unat_of_char)
qed

lemma b64_text_char_ascii: "b64_text_char c \<Longrightarrow> (of_char c :: byte) < 0x80"
  by (auto simp add: b64_text_char_def b64_alphabet_def b64_pad_def)

lemma b64_text_char_plain:
  "b64_text_char c \<Longrightarrow> c \<noteq> quote \<and> c \<noteq> CHR 0x5C \<and> c \<noteq> CHR 0x0A \<and> c \<noteq> CHR 0x0D"
  by (auto simp add: b64_text_char_def b64_alphabet_def b64_pad_def quote_def)

lemma ascii_valid_utf8: "\<forall>b\<in>set bs. b < 0x80 \<Longrightarrow> valid_utf8 bs"
  by (induction bs) simp_all

lemma valid_utf8_b64encode: "valid_utf8 (b64encode B)"
proof (rule ascii_valid_utf8, rule ballI)
  fix b assume "b \<in> set (b64encode B)"
  then obtain c where "b64_text_char c" and "b = of_char c"
    using b64encode_bytes by blast
  then show "b < 0x80" using b64_text_char_ascii by simp
qed

lemma decode_utf8_b64encode: "decode_utf8 (b64encode B) = Inr (payload B)"
  by (simp add: decode_utf8_def valid_utf8_b64encode payload_def)

subsection \<open>Decoding what the encoder wrote\<close>

lemma b64_index_text: "n < 64 \<Longrightarrow> b64_index (char_of (unat (b64_char n))) = Some n"
  by (simp add: text_b64_char b64_index_nth)

lemma text_b64_char_not_pad: "n < 64 \<Longrightarrow> char_of (unat (b64_char n)) \<noteq> b64_pad"
proof
  assume "n < 64" and "char_of (unat (b64_char n)) = b64_pad"
  then have "b64_pad \<in> set b64_alphabet"
    using alphabet_nth_mem [of n] by (simp add: text_b64_char)
  then show False using pad_not_in_alphabet by simp
qed

lemma byte1_pad: "byte1 (unat a div 4) (unat a mod 4 * 16) = a"
proof -
  have "unat a div 4 * 4 + unat a mod 4 * 16 div 16 = unat a"
    by simp
  then show ?thesis unfolding byte1_def by simp
qed

lemma byte1_full: "byte1 (unat a div 4) (unat a mod 4 * 16 + unat (b::byte) div 16) = a"
proof -
  have "unat b div 16 < 16" using unat_byte_less [of b] by simp
  then have "unat a div 4 * 4 + (unat a mod 4 * 16 + unat b div 16) div 16 = unat a"
    by simp
  then show ?thesis unfolding byte1_def by simp
qed

lemma byte2_pad: "byte2 (unat (a::byte) mod 4 * 16 + unat b div 16) (unat b mod 16 * 4) = b"
proof -
  have "unat b div 16 < 16" using unat_byte_less [of b] by simp
  then have "(unat a mod 4 * 16 + unat b div 16) mod 16 * 16 + unat b mod 16 * 4 div 4 = unat b"
    by simp
  then show ?thesis unfolding byte2_def by simp
qed

lemma byte2_full:
  "byte2 (unat (a::byte) mod 4 * 16 + unat b div 16) (unat b mod 16 * 4 + unat (c::byte) div 64) = b"
proof -
  have "unat b div 16 < 16" "unat c div 64 < 4"
    using unat_byte_less [of b] unat_byte_less [of c] by simp_all
  then have "(unat a mod 4 * 16 + unat b div 16) mod 16 * 16
      + (unat b mod 16 * 4 + unat c div 64) div 4 = unat b"
    by simp
  then show ?thesis unfolding byte2_def by simp
qed

lemma byte3_full: "byte3 (unat (b::byte) mod 16 * 4 + unat c div 64) (unat c mod 64) = c"
proof -
  have "unat c div 64 < 4" using unat_byte_less [of c] by simp
  then have "(unat b mod 16 * 4 + unat c div 64) mod 4 * 64 + unat c mod 64 = unat c"
    by simp
  then show ?thesis unfolding byte3_def by simp
qed

text \<open>The test vectors of RFC 4648, section 10.\<close>

lemma payload_rfc4648:
  "payload [] = []"
  "payload [0x66] = ''Zg==''"
  "payload [0x66, 0x6F] = ''Zm8=''"
  "payload [0x66, 0x6F, 0x6F] = ''Zm9v''"
  "payload [0x66, 0x6F, 0x6F, 0x62] = ''Zm9vYg==''"
  "payload [0x66, 0x6F, 0x6F, 0x62, 0x61] = ''Zm9vYmE=''"
  "payload [0x66, 0x6F, 0x6F, 0x62, 0x61, 0x72] = ''Zm9vYmFy''"
  by code_simp+

lemma b64encode_Nil_iff: "b64encode bs = [] \<longleftrightarrow> bs = []"
  by (cases bs rule: b64encode.cases) simp_all

lemma decode_quad_encode:
  "decode_quad (char_of (unat (b64_char (unat a div 4))))
     (char_of (unat (b64_char (unat a mod 4 * 16 + unat b div 16))))
     (char_of (unat (b64_char (unat b mod 16 * 4 + unat c div 64))))
     (char_of (unat (b64_char (unat c mod 64)))) = Some [a, b, c]"
  by (simp add: decode_quad_def b64_index_text sextet_bounds byte1_full byte2_full byte3_full)

lemma b64decode_payload: "b64decode (payload B) = Some B"
proof (induction B rule: b64encode.induct)
  case 1
  show ?case by (simp add: payload_def bytes_text_def)
next
  case (2 a)
  show ?case
    by (simp add: payload_def bytes_text_def decode_last_def text_pad b64_index_text
        sextet_bounds byte1_pad)
next
  case (3 a b)
  show ?case
    by (simp add: payload_def bytes_text_def decode_last_def text_pad text_b64_char_not_pad
        b64_index_text sextet_bounds byte1_full byte2_pad)
next
  case (4 a b c bs)
  then have ih: "b64decode (map (\<lambda>b. char_of (unat b)) (b64encode bs)) = Some bs"
    by (simp add: payload_def bytes_text_def)
  show ?case
    by (simp add: payload_def bytes_text_def decode_last_def text_b64_char_not_pad sextet_bounds
        decode_quad_encode ih b64encode_Nil_iff)
qed

lemma between_quotes_js_content:
  assumes "quote \<notin> set s"
  shows "between_quotes (js_content s) = s"
proof -
  have "takeWhile (\<lambda>c. c \<noteq> quote) (s @ quote # '';'') = s"
    using assms by (auto simp add: takeWhile_tail)
  then show ?thesis
    by (simp add: between_quotes_def js_content_def quote_def)
qed

lemma between_quotes_payload: "between_quotes (js_content (payload B)) = payload B"
  using payload_chars [of quote B] b64_text_char_plain [of quote]
  by (auto intro: between_quotes_js_content)

subsection \<open>Facts about a run\<close>

lemmas path_defs = lib_dir_def source_file_def output_file_def

lemma paths_distinct:
  "lib_dir \<noteq> source_file" "lib_dir \<noteq> output_file" "source_file \<noteq> output_file"
  "source_file \<noteq> lib_dir" "output_file \<noteq> lib_dir" "output_file \<noteq> source_file"
  by (simp_all add: path_defs)

lemma makedirs_available:
  assumes "lib_available ev w"
  shows "makedirs ev lib_dir w =
    (Inr (), w\<lparr>nodes := (nodes w)(lib_dir \<mapsto> Dir), calls := calls w @ [MakeDirs lib_dir]\<rparr>)"
proof (cases "nodes w lib_dir")
  case None
  with assms show ?thesis
    by (simp add: makedirs_def lib_available_def log_call_def)
next
  case (Some n)
  with assms have "nodes w lib_dir = Some Dir"
    by (cases n) (simp_all add: lib_available_def)
  then show ?thesis
    by (simp add: makedirs_def log_call_def fun_upd_idem)
qed

lemma makedirs_unavailable:
  assumes "\<not> lib_available ev w"
  shows "\<exists>e. makedirs ev lib_dir w = (Inl e, w\<lparr>calls := calls w @ [MakeDirs lib_dir]\<rparr>)"
proof (cases "nodes w lib_dir")
  case None
  with assms show ?thesis
    by (auto simp add: makedirs_def lib_available_def log_call_def)
next
  case (Some n)
  with assms show ?thesis
    by (cases n) (simp_all add: makedirs_def lib_available_def log_call_def)
qed

text \<open>The three ways in which the body of the try statement ends.\<close>

lemma try_body_cases [case_names body_caught body_write_failed body_completed]:
  obtains
    (body_caught) e cs where
      "try_body ev w = (Inl e, w\<lparr>calls := calls w @ cs\<rparr>)"
      "cs = [OpenRead source_file] \<or> cs = [OpenRead source_file, ReadAll source_file] \<or>
       cs = [OpenRead source_file, ReadAll source_file, OpenWrite output_file]"
  | (body_write_failed) B k e where
      "nodes w source_file = Some (File B)" "write_fault ev = Some (k, e)"
      "try_body ev w = (Inl e, w\<lparr>nodes := (nodes w)(output_file \<mapsto> File (take k (artifact B))),
         calls := calls w @ [OpenRead source_file, ReadAll source_file,
           OpenWrite output_file, WriteAll output_file]\<rparr>)"
  | (body_completed) B where
      "nodes w source_file = Some (File B)" "write_fault ev = None"
      "try_body ev w = (Inr (), w\<lparr>nodes := (nodes w)(output_file \<mapsto> File (artifact B)),
         console := console w @ [success_msg, link_msg],
         calls := calls w @ [OpenRead source_file, ReadAll source_file,
           OpenWrite output_file, WriteAll output_file]\<rparr>)"
proof (cases "nodes w source_file")
  case None
  then have "try_body ev w = (Inl (FileNotFoundError source_file),
      w\<lparr>calls := calls w @ [OpenRead source_file]\<rparr>)"
    by (simp add: try_body_def open_rb_def log_call_def)
  then show ?thesis using body_caught by blast
next
  case (Some n)
  show ?thesis
  proof (cases n)
    case Dir
    with Some have "try_body ev w = (Inl (IsADirectoryError source_file),
        w\<lparr>calls := calls w @ [OpenRead source_file]\<rparr>)"
      by (simp add: try_body_def open_rb_def log_call_def)
    then show ?thesis using body_caught by blast
  next
    case (File B)
    with Some have src: "nodes w source_file = Some (File B)" by simp
    show ?thesis
    proof (cases "open_rb_fault ev")
      case (Some e)
      with src have "try_body ev w = (Inl e, w\<lparr>calls := calls w @ [OpenRead source_file]\<rparr>)"
        by (simp add: try_body_def open_rb_def log_call_def)
      then show ?thesis using body_caught by blast
    next
      case None
      note rb = None
      show ?thesis
      proof (cases "read_fault ev")
        case (Some e)
        with src rb have "try_body ev w =
            (Inl e, w\<lparr>calls := calls w @ [OpenRead source_file, ReadAll source_file]\<rparr>)"
          by (simp add: try_body_def open_rb_def read_all_def log_call_def)
        then show ?thesis using body_caught by blast
      next
        case None
        note rd = None
        have out_src: "output_file \<noteq> source_file"
          by (simp add: path_defs)
        show ?thesis
        proof (cases "nodes w output_file = Some Dir \<or> open_w_fault ev \<noteq> None")
          case True
          with src rb rd have "\<exists>e. try_body ev w = (Inl e,
              w\<lparr>calls := calls w @ [OpenRead source_file, ReadAll source_file,
                OpenWrite output_file]\<rparr>)"
            by (auto simp add: try_body_def open_rb_def read_all_def open_w_def log_call_def Let_def
                decode_utf8_b64encode split: option.splits node.splits)
          then show ?thesis using body_caught by blast
        next
          case False
          then have ow: "nodes w output_file \<noteq> Some Dir" "open_w_fault ev = None"
            by simp_all
          show ?thesis
          proof (cases "write_fault ev")
            case None
            with src rb rd ow have "try_body ev w =
              (Inr (), w\<lparr>nodes := (nodes w)(output_file \<mapsto> File (artifact B)),
                console := console w @ [success_msg, link_msg],
                calls := calls w @ [OpenRead source_file, ReadAll source_file,
                  OpenWrite output_file, WriteAll output_file]\<rparr>)"
              by (simp add: try_body_def open_rb_def read_all_def open_w_def write_all_def
                  log_call_def print_def decode_utf8_b64encode artifact_def Let_def
                  split: option.splits node.splits)
            with src None show ?thesis using body_completed by blast
          next
            case (Some ke)
            obtain k e where ke: "ke = (k, e)" by (cases ke)
            with Some src rb rd ow have "try_body ev w =
              (Inl e, w\<lparr>nodes := (nodes w)(output_file \<mapsto> File (take k (artifact B))),
                calls := calls w @ [OpenRead source_file, ReadAll source_file,
                  OpenWrite output_file, WriteAll output_file]\<rparr>)"
              by (simp add: try_body_def open_rb_def read_all_def open_w_def write_all_def
                  log_call_def decode_utf8_b64encode artifact_def Let_def
                  split: option.splits node.splits)
            with src Some ke show ?thesis using body_write_failed by blast
          qed
        qed
      qed
    qed
  qed
qed

lemma try_body_completes:
  assumes "nodes w source_file = Some (File B)" and "open_rb_fault ev = None"
    and "read_fault ev = None" and "nodes w output_file \<noteq> Some Dir"
    and "open_w_fault ev = None" and "write_fault ev = None"
  shows "try_body ev w =
    (Inr (), w\<lparr>nodes := (nodes w)(output_file \<mapsto> File (artifact B)),
       console := console w @ [success_msg, link_msg],
       calls := calls w @ [OpenRead source_file, ReadAll source_file,
         OpenWrite output_file, WriteAll output_file]\<rparr>)"
  using assms
  by (simp add: try_body_def open_rb_def read_all_def open_w_def write_all_def
      log_call_def print_def decode_utf8_b64encode artifact_def Let_def
      split: option.splits node.splits)

text \<open>The world in which the try statement starts, when the directory is available.\<close>

lemma before_try:
  assumes "lib_available ev w"
  shows "path_exists source_file (snd (makedirs ev lib_dir w)) =
    (nodes w source_file \<noteq> None,
     w\<lparr>nodes := (nodes w)(lib_dir \<mapsto> Dir),
       calls := calls w @ [MakeDirs lib_dir, PathExists source_file]\<rparr>)"
  by (simp add: makedirs_available [OF assms] path_exists_def log_call_def paths_distinct)

lemma run_raised:
  assumes "makedirs ev lib_dir w = (Inl e, w1)"
  shows "create_template_js ev w = (Raised e, w1)"
  using assms by (simp add: create_template_js_def)

lemma run_missing:
  assumes "lib_available ev w" and "nodes w source_file = None"
  shows "create_template_js ev w =
    (Returned, w\<lparr>nodes := (nodes w)(lib_dir \<mapsto> Dir),
       console := console w @ [not_found_msg],
       calls := calls w @ [MakeDirs lib_dir, PathExists source_file]\<rparr>)"
  using assms before_try [OF assms(1)] makedirs_available [OF assms(1)]
  by (simp add: create_template_js_def print_def)

lemma run_body:
  assumes "lib_available ev w" and "nodes w source_file \<noteq> None"
  shows "create_template_js ev w =
    (case try_body ev (snd (path_exists source_file (snd (makedirs ev lib_dir w)))) of
       (Inl e, w3) \<Rightarrow> (Returned, print (error_msg ev e) w3)
     | (Inr u, w3) \<Rightarrow> (Returned, w3))"
  using assms before_try [OF assms(1)] makedirs_available [OF assms(1)]
  by (simp add: create_template_js_def)

lemma run_cases [case_names raised missing caught_early write_failed completed]:
  obtains
    (raised) e where
      "\<not> lib_available ev w"
      "makedirs ev lib_dir w = (Inl e, w\<lparr>calls := calls w @ [MakeDirs lib_dir]\<rparr>)"
      "create_template_js ev w = (Raised e, w\<lparr>calls := calls w @ [MakeDirs lib_dir]\<rparr>)"
  | (missing)
      "lib_available ev w" "nodes w source_file = None"
      "create_template_js ev w =
        (Returned, w\<lparr>nodes := (nodes w)(lib_dir \<mapsto> Dir),
           console := console w @ [not_found_msg],
           calls := calls w @ [MakeDirs lib_dir, PathExists source_file]\<rparr>)"
  | (caught_early) e cs where
      "lib_available ev w" "nodes w source_file \<noteq> None"
      "create_template_js ev w =
        (Returned, w\<lparr>nodes := (nodes w)(lib_dir \<mapsto> Dir),
           console := console w @ [error_msg ev e],
           calls := calls w @ [MakeDirs lib_dir, PathExists source_file] @ cs\<rparr>)"
      "cs = [OpenRead source_file] \<or> cs = [OpenRead source_file, ReadAll source_file] \<or>
       cs = [OpenRead source_file, ReadAll source_file, OpenWrite output_file]"
  | (write_failed) B k e where
      "lib_available ev w" "nodes w source_file = Some (File B)" "write_fault ev = Some (k, e)"
      "create_template_js ev w =
        (Returned, w\<lparr>nodes := (nodes w)(lib_dir \<mapsto> Dir,
             output_file \<mapsto> File (take k (artifact B))),
           console := console w @ [error_msg ev e],
           calls := calls w @ [MakeDirs lib_dir, PathExists source_file,
             OpenRead source_file, ReadAll source_file,
             OpenWrite output_file, WriteAll output_file]\<rparr>)"
  | (completed) B where
      "lib_available ev w" "nodes w source_file = Some (File B)" "write_fault ev = None"
      "create_template_js ev w =
        (Returned, w\<lparr>nodes := (nodes w)(lib_dir \<mapsto> Dir,
             output_file \<mapsto> File (artifact B)),
           console := console w @ [success_msg, link_msg],
           calls := calls w @ [MakeDirs lib_dir, PathExists source_file,
             OpenRead source_file, ReadAll source_file,
             OpenWrite output_file, WriteAll output_file]\<rparr>)"
proof (cases "lib_available ev w")
  case False
  from makedirs_unavailable [OF False] obtain e
    where e: "makedirs ev lib_dir w = (Inl e, w\<lparr>calls := calls w @ [MakeDirs lib_dir]\<rparr>)"
    by blast
  from False e run_raised [OF e] show ?thesis by (rule raised)
next
  case True
  note lib = True
  show ?thesis
  proof (cases "nodes w source_file = None")
    case True
    from lib True run_missing [OF lib True] show ?thesis by (rule missing)
  next
    case False
    define m where "m = w\<lparr>nodes := (nodes w)(lib_dir \<mapsto> Dir),
       calls := calls w @ [MakeDirs lib_dir, PathExists source_file]\<rparr>"
    have m: "snd (path_exists source_file (snd (makedirs ev lib_dir w))) = m"
      by (simp add: before_try [OF lib] m_def)
    have src: "nodes m source_file = nodes w source_file"
      by (simp add: m_def paths_distinct)
    note body = run_body [OF lib False, unfolded m]
    show ?thesis
    proof (cases rule: try_body_cases [of ev m])
      case (body_caught e cs)
      from body body_caught(1) have "create_template_js ev w =
        (Returned, w\<lparr>nodes := (nodes w)(lib_dir \<mapsto> Dir),
           console := console w @ [error_msg ev e],
           calls := calls w @ [MakeDirs lib_dir, PathExists source_file] @ cs\<rparr>)"
        by (simp add: m_def print_def)
      with lib False show ?thesis using body_caught(2) by (rule caught_early)
    next
      case (body_write_failed B k e)
      from body body_write_failed(3) have "create_template_js ev w =
        (Returned, w\<lparr>nodes := (nodes w)(lib_dir \<mapsto> Dir,
             output_file \<mapsto> File (take k (artifact B))),
           console := console w @ [error_msg ev e],
           calls := calls w @ [MakeDirs lib_dir, PathExists source_file,
             OpenRead source_file, ReadAll source_file,
             OpenWrite output_file, WriteAll output_file]\<rparr>)"
        by (simp add: m_def print_def)
      with lib body_write_failed(1,2) src show ?thesis
        using write_failed by simp
    next
      case (body_completed B)
      from body body_completed(3) have "create_template_js ev w =
        (Returned, w\<lparr>nodes := (nodes w)(lib_dir \<mapsto> Dir,
             output_file \<mapsto> File (artifact B)),
           console := console w @ [success_msg, link_msg],
           calls := calls w @ [MakeDirs lib_dir, PathExists source_file,
             OpenRead source_file, ReadAll source_file,
             OpenWrite output_file, WriteAll output_file]\<rparr>)"
        by (simp add: m_def)
      with lib body_completed(1,2) src show ?thesis
        using completed by simp
    qed
  qed
qed

lemma ready_available: "no_faults ev \<Longrightarrow> fs_ready w \<Longrightarrow> lib_available ev w"
  by (simp add: no_faults_def fs_ready_def lib_available_def split: option.splits node.splits)

text \<open>A run in which nothing is refused.\<close>

lemma run_no_faults:
  assumes "nodes w source_file = Some (File B)" and "no_faults ev" and "fs_ready w"
  shows "create_template_js ev w =
    (Returned, w\<lparr>nodes := (nodes w)(lib_dir \<mapsto> Dir, output_file \<mapsto> File (artifact B)),
       console := console w @ [success_msg, link_msg],
       calls := calls w @ [MakeDirs lib_dir, PathExists source_file,
         OpenRead source_file, ReadAll source_file,
         OpenWrite output_file, WriteAll output_file]\<rparr>)"
proof -
  have lib: "lib_available ev w"
    using assms(2,3) by (rule ready_available)
  define m where "m = w\<lparr>nodes := (nodes w)(lib_dir \<mapsto> Dir),
     calls := calls w @ [MakeDirs lib_dir, PathExists source_file]\<rparr>"
  have m: "snd (path_exists source_file (snd (makedirs ev lib_dir w))) = m"
    by (simp add: before_try [OF lib] m_def)
  have "nodes m source_file = Some (File B)" "nodes m output_file \<noteq> Some Dir"
    using assms(1,3) by (simp_all add: m_def paths_distinct fs_ready_def)
  then have "try_body ev m =
    (Inr (), m\<lparr>nodes := (nodes m)(output_file \<mapsto> File (artifact B)),
       console := console m @ [success_msg, link_msg],
       calls := calls m @ [OpenRead source_file, ReadAll source_file,
         OpenWrite output_file, WriteAll output_file]\<rparr>)"
    using assms(2) by (intro try_body_completes) (simp_all add: no_faults_def)
  with run_body [OF lib, unfolded m] assms(1) show ?thesis
    by (simp add: m_def)
qed

lemma no_faults_succeeded:
  assumes "nodes w source_file = Some (File B)" and "no_faults ev" and "fs_ready w"
  shows "succeeded ev w"
  by (simp add: succeeded_def run_no_faults [OF assms])


text \<open>A successful run had a regular source file and wrote its whole artifact.\<close>

lemma succeeded_artifact:
  assumes "succeeded ev w"
  shows "\<exists>B. nodes w source_file = Some (File B) \<and>
           nodes (snd (create_template_js ev w)) output_file = Some (File (artifact B))"
proof (cases rule: run_cases [of ev w])
  case (raised e)
  with assms show ?thesis by (simp add: succeeded_def)
next
  case missing
  with assms show ?thesis by (simp add: succeeded_def)
next
  case (caught_early e cs)
  with assms show ?thesis by (simp add: succeeded_def)
next
  case (write_failed B k e)
  with assms show ?thesis by (simp add: succeeded_def)
next
  case (completed B)
  then show ?thesis by simp
qed

lemma artifact_text: "bytes_text (artifact B) = js_content (payload B)"
  by (simp add: artifact_def bytes_text_encode_text)

lemma quiet_env_no_faults: "no_faults quiet_env"
  by (simp add: no_faults_def quiet_env_def)

lemma fresh_world_ready: "fs_ready fresh_world"
  by (simp add: fs_ready_def fresh_world_def path_defs)

lemma fresh_world_source: "nodes fresh_world source_file = Some (File [0x4D, 0x61, 0x6E])"
  by (simp add: fresh_world_def)

lemma fresh_world_succeeded: "succeeded quiet_env fresh_world"
  using no_faults_succeeded [OF fresh_world_source quiet_env_no_faults fresh_world_ready] .

lemma empty_world_source: "nodes empty_world source_file = None"
  by (simp add: empty_world_def)

lemma empty_world_lib: "lib_available quiet_env empty_world"
  by (simp add: lib_available_def empty_world_def quiet_env_def)









section \<open>Properties of the procedure\<close>

text \<open>
  C1. For every byte sequence \<open>B\<close> stored in the source file: the text between the
  two single quotes of the artifact of \<open>B\<close>, base64-decoded, is exactly \<open>B\<close>; every
  successful run leaves that artifact in \<^verbatim>\<open>lib/template-data.js\<close>; and a run is
  successful whenever the operating system refuses no call (\<open>no_faults\<close>) and the
  contents of the file system do not stand in the way (\<open>fs_ready\<close>).
\<close>

theorem C1_roundtrip:
  assumes "nodes w source_file = Some (File B)"
  shows "b64decode (between_quotes (bytes_text (artifact B))) = Some B \<and>
    (succeeded ev w \<longrightarrow>
       nodes (snd (create_template_js ev w)) output_file = Some (File (artifact B))) \<and>
    (no_faults ev \<and> fs_ready w \<longrightarrow> succeeded ev w)"
proof -
  have "b64decode (between_quotes (bytes_text (artifact B))) = Some B"
    by (simp add: artifact_text between_quotes_payload b64decode_payload)
  moreover have "nodes (snd (create_template_js ev w)) output_file = Some (File (artifact B))"
    if "succeeded ev w"
    using succeeded_artifact [OF that] assms by simp
  moreover have "succeeded ev w" if "no_faults ev \<and> fs_ready w"
    using that no_faults_succeeded [OF assms] by simp
  ultimately show ?thesis by blast
qed

theorem C1_roundtrip_witness:
  "nodes fresh_world source_file = Some (File [0x4D, 0x61, 0x6E]) \<and> no_faults quiet_env \<and>
   fs_ready fresh_world \<and> succeeded quiet_env fresh_world \<and>
   nodes (snd (create_template_js quiet_env fresh_world)) output_file =
     Some (File (artifact [0x4D, 0x61, 0x6E])) \<and>
   b64decode (between_quotes (bytes_text (artifact [0x4D, 0x61, 0x6E]))) =
     Some [0x4D, 0x61, 0x6E]"
  using C1_roundtrip [OF fresh_world_source, of quiet_env]
    fresh_world_source quiet_env_no_faults fresh_world_ready
  by simp







text \<open>
  The write is not atomic. The output file holds five bytes, the source one byte, and
  the disk is full: \<^verbatim>\<open>open(output_file, 'w')\<close> truncates the file, the write fails,
  and the run returns normally leaving an empty file, which is neither the old content
  nor the complete artifact.
\<close>

theorem C5_counterexample:
  "nodes stocked_world source_file = Some (File [0x4D]) \<and>
   nodes stocked_world output_file = Some (File [1, 2, 3, 4, 5]) \<and>
   artifact [0x4D] =
     encode_text (''window.TEMPLATE_DATA = '' @ [quote] @ ''TQ=='' @ [quote] @ '';'') \<and>
   fst (create_template_js disk_full_env stocked_world) = Returned \<and>
   nodes (snd (create_template_js disk_full_env stocked_world)) output_file =
     Some (File []) \<and>
   nodes (snd (create_template_js disk_full_env stocked_world)) output_file \<noteq>
     nodes stocked_world output_file \<and>
   nodes (snd (create_template_js disk_full_env stocked_world)) output_file \<noteq>
     Some (File (artifact [0x4D]))"
  by code_simp

text \<open>
  C5, as the code has it. After any run the output file is exactly as it was before,
  or it holds a prefix of the new artifact. When the write itself is not interrupted
  it is untouched or complete, and after a successful run it is complete. Only a
  failure of the write, after \<^verbatim>\<open>open(output_file, 'w')\<close> has truncated the file,
  leaves a partial file.
\<close>

theorem C5_unchanged_or_prefix:
  "let w' = snd (create_template_js ev w) in
    (nodes w' output_file = nodes w output_file \<or>
      (\<exists>B k. nodes w source_file = Some (File B) \<and>
         nodes w' output_file = Some (File (take k (artifact B))))) \<and>
    (write_fault ev = None \<longrightarrow>
       nodes w' output_file = nodes w output_file \<or>
       (\<exists>B. nodes w source_file = Some (File B) \<and>
          nodes w' output_file = Some (File (artifact B)))) \<and>
    (succeeded ev w \<longrightarrow>
       (\<exists>B. nodes w source_file = Some (File B) \<and>
          nodes w' output_file = Some (File (artifact B))))"
proof -
  define w' where "w' = snd (create_template_js ev w)"
  have c: "\<exists>B. nodes w source_file = Some (File B) \<and>
          nodes w' output_file = Some (File (artifact B))" if "succeeded ev w"
    using succeeded_artifact [OF that] unfolding w'_def .
  have ab: "(nodes w' output_file = nodes w output_file \<or>
      (\<exists>B k. nodes w source_file = Some (File B) \<and>
         nodes w' output_file = Some (File (take k (artifact B))))) \<and>
    (write_fault ev = None \<longrightarrow>
       nodes w' output_file = nodes w output_file \<or>
       (\<exists>B. nodes w source_file = Some (File B) \<and>
          nodes w' output_file = Some (File (artifact B))))"
  proof (cases rule: run_cases [of ev w])
    case (raised e)
    then show ?thesis by (simp add: w'_def)
  next
    case missing
    then show ?thesis by (simp add: w'_def paths_distinct)
  next
    case (caught_early e cs)
    then show ?thesis by (simp add: w'_def paths_distinct)
  next
    case (write_failed B k e)
    then have "nodes w source_file = Some (File B) \<and>
        nodes w' output_file = Some (File (take k (artifact B)))"
      by (simp add: w'_def)
    with write_failed(3) show ?thesis by auto
  next
    case (completed B)
    then have "nodes w source_file = Some (File B) \<and>
        nodes w' output_file = Some (File (artifact B)) \<and>
        nodes w' output_file = Some (File (take (length (artifact B)) (artifact B)))"
      by (simp add: w'_def)
    then show ?thesis by blast
  qed
  from ab c show ?thesis
    unfolding Let_def w'_def [symmetric] by blast
qed

theorem C5_unchanged_or_prefix_witness:
  "write_fault quiet_env = None \<and> succeeded quiet_env fresh_world \<and>
   (\<exists>B. nodes fresh_world source_file = Some (File B) \<and>
      nodes (snd (create_template_js quiet_env fresh_world)) output_file =
        Some (File (artifact B)))"
proof -
  have wf: "write_fault quiet_env = None"
    by (simp add: quiet_env_def)
  from C5_unchanged_or_prefix [of quiet_env fresh_world] wf fresh_world_succeeded
  show ?thesis by (simp add: Let_def)
qed




text \<open>
  The existence check is not the first file-system operation. In an empty directory
  the history of the run is \<^verbatim>\<open>makedirs\<close>, then \<^verbatim>\<open>exists\<close>, and the first call
  has created \<^verbatim>\<open>lib\<close> although the source file is missing.
\<close>

theorem C7_counterexample:
  "nodes empty_world source_file = None \<and>
   nodes empty_world lib_dir = None \<and>
   calls (snd (create_template_js quiet_env empty_world)) =
     [MakeDirs lib_dir, PathExists source_file] \<and>
   nodes (snd (makedirs quiet_env lib_dir empty_world)) lib_dir = Some Dir \<and>
   nodes (snd (create_template_js quiet_env empty_world)) lib_dir = Some Dir \<and>
   nodes (snd (create_template_js quiet_env empty_world)) lib_dir \<noteq> nodes empty_world lib_dir"
  by code_simp

text \<open>
  C7, as the code has it. Every run calls \<^verbatim>\<open>os.makedirs('lib')\<close> first. When it
  succeeds the existence check on the source file is the second call, and all opening,
  reading and writing of files comes after the check. When the source file is missing
  the run makes these two calls only and changes no path other than \<^verbatim>\<open>lib\<close>.
\<close>

theorem C7_check_after_makedirs:
  "let w' = snd (create_template_js ev w) in
    (\<not> lib_available ev w \<longrightarrow> calls w' = calls w @ [MakeDirs lib_dir]) \<and>
    (lib_available ev w \<longrightarrow>
       nodes w' lib_dir = Some Dir \<and>
       (\<exists>rest. calls w' = calls w @ [MakeDirs lib_dir, PathExists source_file] @ rest \<and>
          set rest \<subseteq> {OpenRead source_file, ReadAll source_file,
            OpenWrite output_file, WriteAll output_file})) \<and>
    (lib_available ev w \<and> nodes w source_file = None \<longrightarrow>
       calls w' = calls w @ [MakeDirs lib_dir, PathExists source_file] \<and>
       (p \<noteq> lib_dir \<longrightarrow> nodes w' p = nodes w p))"
proof -
  define w' where "w' = snd (create_template_js ev w)"
  have a: "calls w' = calls w @ [MakeDirs lib_dir]" if "\<not> lib_available ev w"
    using that unfolding w'_def by (cases rule: run_cases [of ev w]) simp_all
  have b: "nodes w' lib_dir = Some Dir \<and>
       (\<exists>rest. calls w' = calls w @ [MakeDirs lib_dir, PathExists source_file] @ rest \<and>
          set rest \<subseteq> {OpenRead source_file, ReadAll source_file,
            OpenWrite output_file, WriteAll output_file})" if "lib_available ev w"
  proof (cases rule: run_cases [of ev w])
    case (raised e)
    with that show ?thesis by simp
  next
    case missing
    then show ?thesis by (simp add: w'_def)
  next
    case (caught_early e cs)
    from caught_early(3) have "nodes w' lib_dir = Some Dir"
      "calls w' = calls w @ [MakeDirs lib_dir, PathExists source_file] @ cs"
      by (simp_all add: w'_def)
    moreover from caught_early(4) have "set cs \<subseteq> {OpenRead source_file, ReadAll source_file,
            OpenWrite output_file, WriteAll output_file}"
      by auto
    ultimately show ?thesis by blast
  next
    case (write_failed B k e)
    from write_failed(4) have "nodes w' lib_dir = Some Dir"
      "calls w' = calls w @ [MakeDirs lib_dir, PathExists source_file] @
         [OpenRead source_file, ReadAll source_file, OpenWrite output_file, WriteAll output_file]"
      by (simp_all add: w'_def paths_distinct)
    moreover have "set [OpenRead source_file, ReadAll source_file, OpenWrite output_file,
        WriteAll output_file] \<subseteq> {OpenRead source_file, ReadAll source_file,
            OpenWrite output_file, WriteAll output_file}"
      by simp
    ultimately show ?thesis by blast
  next
    case (completed B)
    from completed(4) have "nodes w' lib_dir = Some Dir"
      "calls w' = calls w @ [MakeDirs lib_dir, PathExists source_file] @
         [OpenRead source_file, ReadAll source_file, OpenWrite output_file, WriteAll output_file]"
      by (simp_all add: w'_def paths_distinct)
    moreover have "set [OpenRead source_file, ReadAll source_file, OpenWrite output_file,
        WriteAll output_file] \<subseteq> {OpenRead source_file, ReadAll source_file,
            OpenWrite output_file, WriteAll output_file}"
      by simp
    ultimately show ?thesis by blast
  qed
  have c: "calls w' = calls w @ [MakeDirs lib_dir, PathExists source_file] \<and>
       (p \<noteq> lib_dir \<longrightarrow> nodes w' p = nodes w p)"
    if "lib_available ev w" and "nodes w source_file = None"
    unfolding w'_def by (simp add: run_missing [OF that])
  from a b c show ?thesis
    unfolding Let_def w'_def [symmetric] by blast
qed

theorem C7_check_after_makedirs_witness:
  "lib_available quiet_env empty_world \<and> nodes empty_world source_file = None \<and>
   calls (snd (create_template_js quiet_env empty_world)) =
     calls empty_world @ [MakeDirs lib_dir, PathExists source_file] \<and>
   nodes (snd (create_template_js quiet_env empty_world)) lib_dir = Some Dir \<and>
   output_file \<noteq> lib_dir \<and>
   nodes (snd (create_template_js quiet_env empty_world)) output_file =
     nodes empty_world output_file \<and>
   \<not> lib_available quiet_env blocked_world \<and>
   calls (snd (create_template_js quiet_env blocked_world)) =
     calls blocked_world @ [MakeDirs lib_dir]"
proof -
  have h: "\<not> lib_available quiet_env blocked_world"
    by code_simp
  from C7_check_after_makedirs [of quiet_env empty_world output_file]
    empty_world_lib empty_world_source paths_distinct(5)
  have r1: "calls (snd (create_template_js quiet_env empty_world)) =
     calls empty_world @ [MakeDirs lib_dir, PathExists source_file] \<and>
   nodes (snd (create_template_js quiet_env empty_world)) lib_dir = Some Dir \<and>
   nodes (snd (create_template_js quiet_env empty_world)) output_file =
     nodes empty_world output_file"
    by (simp add: Let_def)
  from C7_check_after_makedirs [of quiet_env blocked_world] h
  have r2: "calls (snd (create_template_js quiet_env blocked_world)) =
     calls blocked_world @ [MakeDirs lib_dir]"
    by (simp add: Let_def)
  from empty_world_lib empty_world_source paths_distinct(5) h r1 r2 show ?thesis
    by simp
qed





text \<open>
  C10. For every source byte sequence the payload put between the quotes contains no
  single quote, no backslash and no line terminator, and the bytes of the encoder
  always decode as UTF-8; so the first quote of the generated line opens a string
  literal that the quote written after the payload closes, with the payload as its
  value.
\<close>

theorem C10_payload_plain:
  "(\<forall>c\<in>set (payload B).
      c \<noteq> quote \<and> c \<noteq> CHR 0x5C \<and> c \<noteq> CHR 0x0A \<and> c \<noteq> CHR 0x0D) \<and>
   between_quotes (js_content (payload B)) = payload B \<and>
   decode_utf8 (b64encode B) = Inr (payload B)"
  using payload_chars [of _ B] b64_text_char_plain
  by (auto simp add: between_quotes_payload decode_utf8_b64encode)

theorem C10_payload_plain_witness:
  "CHR ''T'' \<in> set (payload [0x4D, 0x61, 0x6E]) \<and>
   CHR ''T'' \<noteq> quote \<and> CHR ''T'' \<noteq> CHR 0x5C \<and> CHR ''T'' \<noteq> CHR 0x0A \<and>
   CHR ''T'' \<noteq> CHR 0x0D"
proof -
  have m: "CHR ''T'' \<in> set (payload [0x4D, 0x61, 0x6E])"
    by code_simp
  from C10_payload_plain [of "[0x4D, 0x61, 0x6E]"] m show ?thesis
    by blast
qed

end
